theory Spec2Isabelle
  imports
    Complex_Main
    "HOL-Library.Word"
    "HOL-Library.List_Lexorder"
    "HOL-Library.Char_ord"
    "HOL-Library.Sublist"
begin

section \<open>The schema layer of camlistore (pkg/schema/schema.go)\<close>

text \<open>
  Conventions of the embedding.
  \<^item> A Go \<^verbatim>\<open>string\<close> is a byte sequence: \<^typ>\<open>string\<close>, with \<^typ>\<open>char\<close> as the byte.
    The order on strings (imported from the list and character orders) is the byte-wise
    lexicographic one, which is Go's \<^verbatim>\<open><\<close> on strings.
  \<^item> A Go \<^verbatim>\<open>map[string]interface{}\<close> is a map \<open>string \<rightharpoonup> value\<close>; \<^verbatim>\<open>m[k] = v\<close> is
    \<open>m(k \<mapsto> v)\<close>, \<^verbatim>\<open>delete(m, k)\<close> is \<open>m(k := None)\<close>. A function that mutates its map argument
    returns the final map next to its Go result.
  \<^item> A pointer that may be nil is an \<open>option\<close>.
  \<^item> \<^verbatim>\<open>uint64\<close> and \<^verbatim>\<open>int64\<close> are \<^typ>\<open>64 word\<close>; the conversion between them keeps the bits,
    \<open>uint\<close> reads the unsigned and \<open>sint\<close> the signed value.
  \<^item> \<^verbatim>\<open>(T, error)\<close> results are sums with the error on the left; a lone \<^verbatim>\<open>error\<close> result is an
    \<open>option\<close>, \<open>None\<close> for \<^verbatim>\<open>nil\<close>.
  \<^item> Packages outside schema.go (encoding/json, fmt, blobref, the file and directory readers)
    enter as function parameters.
\<close>

subsection \<open>Errors\<close>

text \<open>
  The errors schema.go creates, named after what they report; \<open>ErrOther\<close> carries an error
  handed up unchanged from another package (encoding/json, NewFileReader, NewDirReader).
  \<open>PanicSliceBounds\<close> stands for the run-time panic of \<^verbatim>\<open>jsonBytes[2:]\<close> on a slice shorter than
  two bytes.
\<close>

datatype 'e schema_error =
    ErrNoCamliVersion                \<comment> \<open>"schema: no camliVersion key in map"\<close>
  | ErrSsNil                         \<comment> \<open>"ss was nil"\<close>
  | ErrBlobRefNil                    \<comment> \<open>"ss.BlobRef was nil"\<close>
  | ErrInvalidType string            \<comment> \<open>"invalid DirectoryEntry camliType of %q"\<close>
  | ErrTypeMismatch string string    \<comment> \<open>"DirectoryEntry is camliType %q, not %q"\<close>
  | ErrSymlinkTodo                   \<comment> \<open>"TODO: Symlink not implemented"\<close>
  | ErrBothRefs                      \<comment> \<open>"schema: part contains both blobRef and bytesRef"\<close>
  | ErrSizeMismatch "64 word" "64 word"
      \<comment> \<open>"schema: declared size %d doesn't match sum of parts size %d"\<close>
  | PanicSliceBounds
  | ErrOther 'e

subsection \<open>Dynamic values\<close>

text \<open>
  The values the builders of schema.go store under \<^verbatim>\<open>interface{}\<close>: \<^verbatim>\<open>int\<close>, \<^verbatim>\<open>uint64\<close>,
  \<^verbatim>\<open>string\<close>, \<^verbatim>\<open>bool\<close>, \<^verbatim>\<open>[]string\<close> and \<^verbatim>\<open>[]map[string]interface{}\<close> (whose elements may be
  nil maps).
\<close>

datatype gval =
    GInt int
  | GUint64 "64 word"
  | GString string
  | GBool bool
  | GStrings "string list"
  | GMaps "(string \<Rightarrow> gval option) option list"

type_synonym camli_map = "string \<rightharpoonup> gval"

text \<open>
  The values encoding/json produces when it decodes into \<^verbatim>\<open>interface{}\<close>: nil, bool, float64,
  string, \<^verbatim>\<open>[]interface{}\<close> and \<^verbatim>\<open>map[string]interface{}\<close>. The type \<open>'f\<close> is float64.
\<close>

datatype 'f json =
    JNull
  | JBool bool
  | JNumber 'f
  | JString string
  | JArray "'f json list"
  | JObject "string \<Rightarrow> 'f json option"

subsection \<open>MapToCamliJSON\<close>

text \<open>
  \<^verbatim>\<open>json.MarshalIndent(m, "", "  ")\<close> on a map, after the documentation of encoding/json: the
  keys are sorted, every member stands on a line of its own, indented by two spaces, as
  \<^verbatim>\<open>key: value\<close>, the members are separated by a comma, and the empty map is \<^verbatim>\<open>{}\<close>. The
  rendering of a key (\<open>ek\<close>, a quoted JSON string) and of a member value (\<open>ev\<close>, which may fail)
  are parameters. Encoding stops at the first value that fails.
\<close>

fun encode_members ::
  "(string \<Rightarrow> string) \<Rightarrow> ('v \<Rightarrow> 'e + string) \<Rightarrow> (string \<rightharpoonup> 'v) \<Rightarrow> string list
     \<Rightarrow> 'e + (string \<times> string) list" where
  "encode_members ek ev m [] = Inr []"
| "encode_members ek ev m (k # ks) =
     (case m k of
        None \<Rightarrow> encode_members ek ev m ks
      | Some v \<Rightarrow>
          (case ev v of
             Inl e \<Rightarrow> Inl e
           | Inr s \<Rightarrow>
               (case encode_members ek ev m ks of
                  Inl e \<Rightarrow> Inl e
                | Inr ms \<Rightarrow> Inr ((ek k, s) # ms))))"

fun members_text :: "(string \<times> string) list \<Rightarrow> string" where
  "members_text [] = []"
| "members_text [(k, s)] = ''  '' @ k @ '': '' @ s"
| "members_text ((k, s) # ms) = ''  '' @ k @ '': '' @ s @ '',\<newline>'' @ members_text ms"

definition MarshalIndent ::
  "(string \<Rightarrow> string) \<Rightarrow> ('v \<Rightarrow> 'e + string) \<Rightarrow> (string \<rightharpoonup> 'v) \<Rightarrow> 'e + string" where
  "MarshalIndent ek ev m =
     (case encode_members ek ev m (sorted_list_of_set (dom m)) of
        Inl e \<Rightarrow> Inl e
      | Inr ms \<Rightarrow>
          Inr (if ms = [] then ''{}'' else ''{\<newline>'' @ members_text ms @ ''\<newline>}''))"

text \<open>
  MapToCamliJSON (schema.go, lines 396 to 411). \<open>fv\<close> is \<^verbatim>\<open>fmt\<close>'s \<^verbatim>\<open>%v\<close> of the version value.
  The second component of the result is the map the caller is left with.
\<close>

definition camliVersion_line :: "string \<Rightarrow> string" where
  \<open>camliVersion_line version_text = ''{"camliVersion": '' @ version_text @ '',\<newline>''\<close>

definition MapToCamliJSON ::
  "(string \<Rightarrow> string) \<Rightarrow> ('v \<Rightarrow> 'e + string) \<Rightarrow> ('v \<Rightarrow> string) \<Rightarrow> (string \<rightharpoonup> 'v)
     \<Rightarrow> ('e schema_error + string) \<times> (string \<rightharpoonup> 'v)" where
  "MapToCamliJSON ek ev fv m =
     (case m ''camliVersion'' of
        None \<Rightarrow> (Inl ErrNoCamliVersion, m)
      | Some version \<Rightarrow>
          (let m1 = m(''camliVersion'' := None) in
           case MarshalIndent ek ev m1 of
             Inl err \<Rightarrow> (Inl (ErrOther err), m1)
           | Inr jsonBytes \<Rightarrow>
               (let m2 = m1(''camliVersion'' \<mapsto> version);
                    buf = camliVersion_line (fv version)
                in if length jsonBytes < 2 then (Inl PanicSliceBounds, m2)
                   else (Inr (buf @ drop 2 jsonBytes), m2))))"

subsection \<open>Supersets and byte parts\<close>

text \<open>
  \<open>'b\<close> is the type of a \<^verbatim>\<open>blobref.BlobRef\<close>; a \<^verbatim>\<open>*blobref.BlobRef\<close> is a \<open>'b option\<close>. Two
  records have a field \<^verbatim>\<open>BlobRef\<close>: they are told apart as \<open>BytesPart.BlobRef\<close> and
  \<open>Superset.BlobRef\<close>.
\<close>

record 'b BytesPart =
  Size :: "64 word"
  BlobRef :: "'b option"
  BytesRef :: "'b option"
  Offset :: "64 word"

record ('b, 'f) Superset =
  BlobRef :: "'b option"
  Version :: int
  Type :: string
  Signer :: string
  Sig :: string
  ClaimType :: string
  ClaimDate :: string
  Permanode :: string
  Attribute :: string
  Value :: string
  FileName :: string
  FileNameBytes :: "'f json list"
  SymlinkTarget :: string
  SymlinkTargetBytes :: "'f json list"
  UnixPermission :: string
  UnixOwnerId :: int
  UnixOwner :: string
  UnixGroupId :: int
  UnixGroup :: string
  UnixMtime :: string
  UnixCtime :: string
  UnixAtime :: string
  Parts :: "'b BytesPart option list"
  Entries :: string
  Members :: "string list"

text \<open>
  stringFromMixedArray (lines 236 to 249). \<open>mixed_part\<close> is the body of the loop: the buffer
  after one element. \<open>byte\<close> is Go's conversion \<^verbatim>\<open>byte(num)\<close> of a float64.
\<close>

fun mixed_part :: "('f \<Rightarrow> char) \<Rightarrow> string \<Rightarrow> 'f json \<Rightarrow> string" where
  "mixed_part byte buf (JString s) = buf @ s"
| "mixed_part byte buf (JNumber num) = buf @ [byte num]"
| "mixed_part byte buf _ = buf"

definition stringFromMixedArray :: "('f \<Rightarrow> char) \<Rightarrow> 'f json list \<Rightarrow> string" where
  "stringFromMixedArray byte parts = foldl (mixed_part byte) [] parts"

text \<open>
  The conversion \<^verbatim>\<open>byte(num)\<close> after the Go language specification. A number decoded from
  JSON is a finite float64, whose value is a real. The conversion discards the fraction
  (truncation towards zero) and yields that integer when a byte can represent it; when it
  cannot, the conversion still succeeds, with a value that depends on the implementation:
  \<open>impl\<close>. \<open>gc_amd64\<close> is what the gc compiler does on amd64: it converts to an
  \<^verbatim>\<open>int32\<close>, with an instruction that yields \<open>- 2 ^ 31\<close> when the truncated value does not fit,
  and keeps the low eight bits.
\<close>

definition trunc :: "real \<Rightarrow> int" where
  "trunc x = (if 0 \<le> x then \<lfloor>x\<rfloor> else \<lceil>x\<rceil>)"

definition go_byte :: "(real \<Rightarrow> char) \<Rightarrow> real \<Rightarrow> char" where
  "go_byte impl num =
     (let i = trunc num in if 0 \<le> i \<and> i \<le> 255 then char_of i else impl num)"

definition gc_amd64 :: "real \<Rightarrow> char" where
  "gc_amd64 num =
     (let i = trunc num
      in char_of (if - 2147483648 \<le> i \<and> i \<le> 2147483647 then i else - 2147483648))"

definition SymlinkTargetString :: "('f \<Rightarrow> char) \<Rightarrow> ('b, 'f) Superset \<Rightarrow> string" where
  "SymlinkTargetString byte s =
     (if SymlinkTarget s \<noteq> [] then SymlinkTarget s
      else stringFromMixedArray byte (SymlinkTargetBytes s))"

definition FileNameString :: "('f \<Rightarrow> char) \<Rightarrow> ('b, 'f) Superset \<Rightarrow> string" where
  "FileNameString byte s =
     (if FileName s \<noteq> [] then FileName s
      else stringFromMixedArray byte (FileNameBytes s))"

definition HasFilename :: "('f \<Rightarrow> char) \<Rightarrow> ('b, 'f) Superset \<Rightarrow> string \<Rightarrow> bool" where
  "HasFilename byte s name \<longleftrightarrow> FileNameString byte s = name"

subsection \<open>Directory entries\<close>

text \<open>
  \<open>'x\<close> is the fetcher, \<open>'fr\<close> a \<^verbatim>\<open>*FileReader\<close> and \<open>'dr\<close> a \<^verbatim>\<open>*DirReader\<close> that is not nil.
  NewFileReader and NewDirReader live in other files of the package and are parameters of
  \<open>File\<close> and \<open>Directory\<close>: given the fetcher and the blob reference they answer with an
  error or with a reader that is not nil, and different calls may be given different
  answers. A method returns the entry it leaves behind next to its result.
\<close>

record ('b, 'f, 'x, 'fr, 'dr) dirEntry =
  ss :: "('b, 'f) Superset"
  fetcher :: 'x
  fr :: "'fr option"
  dr :: "'dr option"

definition CamliType :: "('b, 'f, 'x, 'fr, 'dr) dirEntry \<Rightarrow> string" where
  "CamliType de = Type (ss de)"

definition File ::
  "('x \<Rightarrow> 'b option \<Rightarrow> 'e + 'fr) \<Rightarrow> ('b, 'f, 'x, 'fr, 'dr) dirEntry
     \<Rightarrow> ('e schema_error + 'fr) \<times> ('b, 'f, 'x, 'fr, 'dr) dirEntry" where
  "File NewFileReader de =
     (case fr de of
        None \<Rightarrow>
          if Type (ss de) \<noteq> ''file''
            then (Inl (ErrTypeMismatch (Type (ss de)) ''file''), de)
          else
            (case NewFileReader (fetcher de) (Superset.BlobRef (ss de)) of
               Inl err \<Rightarrow> (Inl (ErrOther err), de)
             | Inr r \<Rightarrow> (Inr r, de\<lparr>fr := Some r\<rparr>))
      | Some r \<Rightarrow> (Inr r, de))"

definition Directory ::
  "('x \<Rightarrow> 'b option \<Rightarrow> 'e + 'dr) \<Rightarrow> ('b, 'f, 'x, 'fr, 'dr) dirEntry
     \<Rightarrow> ('e schema_error + 'dr) \<times> ('b, 'f, 'x, 'fr, 'dr) dirEntry" where
  "Directory NewDirReader de =
     (case dr de of
        None \<Rightarrow>
          if Type (ss de) \<noteq> ''directory''
            then (Inl (ErrTypeMismatch (Type (ss de)) ''directory''), de)
          else
            (case NewDirReader (fetcher de) (Superset.BlobRef (ss de)) of
               Inl err \<Rightarrow> (Inl (ErrOther err), de)
             | Inr d \<Rightarrow> (Inr d, de\<lparr>dr := Some d\<rparr>))
      | Some d \<Rightarrow> (Inr d, de))"

definition Symlink ::
  "('b, 'f, 'x, 'fr, 'dr) dirEntry
     \<Rightarrow> ('e schema_error + 's) \<times> ('b, 'f, 'x, 'fr, 'dr) dirEntry" where
  "Symlink de = (Inl ErrSymlinkTodo, de)"

text \<open>NewDirectoryEntry (lines 151 to 166); the entry holds a copy of the Superset.\<close>

definition NewDirectoryEntry ::
  "'x \<Rightarrow> ('b, 'f) Superset option \<Rightarrow> 'e schema_error + ('b, 'f, 'x, 'fr, 'dr) dirEntry" where
  "NewDirectoryEntry fetcher' sp =
     (case sp of
        None \<Rightarrow> Inl ErrSsNil
      | Some s \<Rightarrow>
          if Superset.BlobRef s = None then Inl ErrBlobRefNil
          else if Type s = ''file'' \<or> Type s = ''directory'' \<or> Type s = ''symlink''
            then Inr \<lparr>ss = s, fetcher = fetcher', fr = None, dr = None\<rparr>
          else Inl (ErrInvalidType (Type s)))"

subsection \<open>PopulateParts\<close>

text \<open>
  PopulateParts (lines 452 to 477). \<open>bs\<close> is \<^verbatim>\<open>BlobRef.String\<close>. The loop carries the index, the
  running sum (an \<^verbatim>\<open>int64\<close>, to which \<^verbatim>\<open>int64(part.Size)\<close> is added with wrap-around) and the
  slice \<^verbatim>\<open>mparts\<close>, which starts as \<^verbatim>\<open>len(parts)\<close> nil maps. The source stores the fresh map
  in \<^verbatim>\<open>mparts[idx]\<close> before it fills it; a Go map is a reference, so the slot holds the
  filled map, which is what the model writes. The map argument \<open>m\<close> is not nil.
\<close>

fun PopulateParts_loop ::
  "('b \<Rightarrow> string) \<Rightarrow> nat \<Rightarrow> 'b BytesPart list \<Rightarrow> 64 word \<Rightarrow> camli_map option list
     \<Rightarrow> 'e schema_error + (64 word \<times> camli_map option list)" where
  "PopulateParts_loop bs idx [] sumSize mparts = Inr (sumSize, mparts)"
| "PopulateParts_loop bs idx (part # rest) sumSize mparts =
     (let mpart = Map.empty in
      if BytesPart.BlobRef part \<noteq> None \<and> BytesRef part \<noteq> None then Inl ErrBothRefs
      else
        (let mpart =
               (if BytesPart.BlobRef part \<noteq> None
                  then mpart(''blobRef'' \<mapsto> GString (bs (the (BytesPart.BlobRef part))))
                else if BytesRef part \<noteq> None
                  then mpart(''bytesRef'' \<mapsto> GString (bs (the (BytesRef part))))
                else mpart);
             mpart = mpart(''size'' \<mapsto> GUint64 (Size part));
             sumSize = sumSize + Size part;
             mpart = (if Offset part \<noteq> 0 then mpart(''offset'' \<mapsto> GUint64 (Offset part))
                      else mpart)
         in PopulateParts_loop bs (idx + 1) rest sumSize (mparts[idx := Some mpart])))"

definition PopulateParts ::
  "('b \<Rightarrow> string) \<Rightarrow> camli_map \<Rightarrow> 64 word \<Rightarrow> 'b BytesPart list
     \<Rightarrow> 'e schema_error option \<times> camli_map" where
  "PopulateParts bs m size' parts =
     (case PopulateParts_loop bs 0 parts 0 (replicate (length parts) None) of
        Inl err \<Rightarrow> (Some err, m)
      | Inr (sumSize, mparts) \<Rightarrow>
          if sumSize \<noteq> size' then (Some (ErrSizeMismatch size' sumSize), m)
          else (None, m(''parts'' \<mapsto> GMaps mparts)))"

subsection \<open>Claims\<close>

text \<open>
  The builders of lines 362 to 367 and 510 to 537. \<open>now\<close> is the text
  \<^verbatim>\<open>RFC3339FromTime(time.Now())\<close> yields when the claim is built; the two time functions of
  schema.go hand their argument to Go's \<^verbatim>\<open>time\<close> package and are not embedded.
\<close>

definition newCamliMap :: "int \<Rightarrow> string \<Rightarrow> camli_map" where
  "newCamliMap version ctype =
     (let m = Map.empty;
          m = m(''camliVersion'' \<mapsto> GInt version);
          m = m(''camliType'' \<mapsto> GString ctype)
      in m)"

definition NewClaim :: "('b \<Rightarrow> string) \<Rightarrow> string \<Rightarrow> 'b \<Rightarrow> string \<Rightarrow> camli_map" where
  "NewClaim bs now permaNode claimType =
     (let m = newCamliMap 1 ''claim'';
          m = m(''permaNode'' \<mapsto> GString (bs permaNode));
          m = m(''claimType'' \<mapsto> GString claimType);
          m = m(''claimDate'' \<mapsto> GString now)
      in m)"

definition newAttrChangeClaim ::
  "('b \<Rightarrow> string) \<Rightarrow> string \<Rightarrow> 'b \<Rightarrow> string \<Rightarrow> string \<Rightarrow> string \<Rightarrow> camli_map" where
  "newAttrChangeClaim bs now permaNode claimType attr val =
     (let m = NewClaim bs now permaNode claimType;
          m = m(''attribute'' \<mapsto> GString attr);
          m = m(''value'' \<mapsto> GString val)
      in m)"

definition NewSetAttributeClaim ::
  "('b \<Rightarrow> string) \<Rightarrow> string \<Rightarrow> 'b \<Rightarrow> string \<Rightarrow> string \<Rightarrow> camli_map" where
  "NewSetAttributeClaim bs now permaNode attr val =
     newAttrChangeClaim bs now permaNode ''set-attribute'' attr val"

definition NewAddAttributeClaim ::
  "('b \<Rightarrow> string) \<Rightarrow> string \<Rightarrow> 'b \<Rightarrow> string \<Rightarrow> string \<Rightarrow> camli_map" where
  "NewAddAttributeClaim bs now permaNode attr val =
     newAttrChangeClaim bs now permaNode ''add-attribute'' attr val"

definition NewDelAttributeClaim ::
  "('b \<Rightarrow> string) \<Rightarrow> string \<Rightarrow> 'b \<Rightarrow> string \<Rightarrow> camli_map" where
  "NewDelAttributeClaim bs now permaNode attr =
     (let m = newAttrChangeClaim bs now permaNode ''del-attribute'' attr [];
          m = m(''value'' := None)
      in m)"

section \<open>Notions used to state the properties\<close>

text \<open>What one element of a mixed array contributes to the decoded byte sequence.\<close>

definition element_bytes :: "('f \<Rightarrow> char) \<Rightarrow> 'f json \<Rightarrow> string" where
  "element_bytes byte part =
     (case part of JString s \<Rightarrow> s | JNumber num \<Rightarrow> [byte num] | _ \<Rightarrow> [])"

text \<open>
  For an array of decoded JSON values: the bytes an element stands for when a number means
  its value truncated modulo 256 (\<open>claimed_bytes\<close>); the same, except that a number a byte
  cannot represent stands for the byte the implementation gives it (\<open>decoded_bytes\<close>); the
  elements whose numbers a byte can represent; the elements that are a string or a number;
  and how many bytes an element gives.
\<close>

definition claimed_bytes :: "real json \<Rightarrow> string" where
  "claimed_bytes part =
     (case part of
        JString s \<Rightarrow> s
      | JNumber num \<Rightarrow> [char_of (trunc num mod 256)]
      | _ \<Rightarrow> [])"

definition decoded_bytes :: "(real \<Rightarrow> char) \<Rightarrow> real json \<Rightarrow> string" where
  "decoded_bytes impl part =
     (case part of
        JString s \<Rightarrow> s
      | JNumber num \<Rightarrow>
          (if 0 \<le> trunc num \<and> trunc num \<le> 255 then [char_of (trunc num mod 256)]
           else [impl num])
      | _ \<Rightarrow> [])"

definition fits_byte :: "real json \<Rightarrow> bool" where
  "fits_byte part =
     (case part of JNumber num \<Rightarrow> 0 \<le> trunc num \<and> trunc num \<le> 255 | _ \<Rightarrow> True)"

definition string_or_number :: "'f json \<Rightarrow> bool" where
  "string_or_number part =
     (case part of JString s \<Rightarrow> True | JNumber num \<Rightarrow> True | _ \<Rightarrow> False)"

definition emitted_length :: "'f json \<Rightarrow> nat" where
  "emitted_length part =
     (case part of JString s \<Rightarrow> length s | JNumber num \<Rightarrow> 1 | _ \<Rightarrow> 0)"

text \<open>
  A part with both references set, and the map the loop of PopulateParts builds for a part
  that passed that test.
\<close>

definition both_refs :: "'b BytesPart \<Rightarrow> bool" where
  "both_refs part \<longleftrightarrow> BytesPart.BlobRef part \<noteq> None \<and> BytesRef part \<noteq> None"

definition part_entry :: "('b \<Rightarrow> string) \<Rightarrow> 'b BytesPart \<Rightarrow> camli_map" where
  "part_entry bs part =
     (let mpart =
            (if BytesPart.BlobRef part \<noteq> None
               then [''blobRef'' \<mapsto> GString (bs (the (BytesPart.BlobRef part)))]
             else if BytesRef part \<noteq> None
               then [''bytesRef'' \<mapsto> GString (bs (the (BytesRef part)))]
             else Map.empty);
          mpart = mpart(''size'' \<mapsto> GUint64 (Size part))
      in if Offset part \<noteq> 0 then mpart(''offset'' \<mapsto> GUint64 (Offset part)) else mpart)"

text \<open>
  The entries a program can hold are those NewDirectoryEntry returned, after any sequence of
  calls of their methods. \<open>after_calls\<close> runs such a sequence; each call of \<open>File\<close> and
  \<open>Directory\<close> comes with the answer NewFileReader or NewDirReader gives at that moment (the
  error they may report does not reach the entry, so it is \<open>unit\<close> here). \<open>dirEntry_inv\<close> is
  the invariant these entries satisfy: a cached reader fits the type.
\<close>

datatype ('b, 'x, 'fr, 'dr) method_call =
    CallFile "'x \<Rightarrow> 'b option \<Rightarrow> unit + 'fr"
  | CallDirectory "'x \<Rightarrow> 'b option \<Rightarrow> unit + 'dr"
  | CallSymlink

fun after_calls ::
  "('b, 'x, 'fr, 'dr) method_call list \<Rightarrow> ('b, 'f, 'x, 'fr, 'dr) dirEntry
     \<Rightarrow> ('b, 'f, 'x, 'fr, 'dr) dirEntry" where
  "after_calls [] de = de"
| "after_calls (CallFile NewFileReader # cs) de = after_calls cs (snd (File NewFileReader de))"
| "after_calls (CallDirectory NewDirReader # cs) de =
     after_calls cs (snd (Directory NewDirReader de))"
| "after_calls (CallSymlink # cs) de =
     after_calls cs (snd (Symlink de :: (unit schema_error + unit) \<times> _))"

definition dirEntry_inv :: "('b, 'f, 'x, 'fr, 'dr) dirEntry \<Rightarrow> bool" where
  "dirEntry_inv de \<longleftrightarrow>
     (fr de \<noteq> None \<longrightarrow> Type (ss de) = ''file'')
   \<and> (dr de \<noteq> None \<longrightarrow> Type (ss de) = ''directory'')"

section \<open>Example data\<close>

text \<open>
  A map of scalar values with the renderings encoding/json and \<^verbatim>\<open>fmt\<close> give them: an integer
  in decimal, a string between double quotes for JSON (\<open>json_quote\<close> is the encoding of a
  string without characters that JSON escapes) and as it is for \<^verbatim>\<open>%v\<close>.
\<close>

datatype scalar = SInt int | SString string

fun decimal :: "nat \<Rightarrow> string" where
  "decimal n =
     (if n < 10 then [''0123456789'' ! n]
      else decimal (n div 10) @ [''0123456789'' ! (n mod 10)])"

definition show_int :: "int \<Rightarrow> string" where
  "show_int i = (if i < 0 then CHR ''-'' # decimal (nat (- i)) else decimal (nat i))"

definition json_quote :: "string \<Rightarrow> string" where
  "json_quote s = CHR 0x22 # s @ [CHR 0x22]"

fun json_scalar :: "scalar \<Rightarrow> unit + string" where
  "json_scalar (SInt i) = Inr (show_int i)"
| "json_scalar (SString s) = Inr (json_quote s)"

fun fmt_scalar :: "scalar \<Rightarrow> string" where
  "fmt_scalar (SInt i) = show_int i"
| "fmt_scalar (SString s) = s"

definition claim_map :: "string \<rightharpoonup> scalar" where
  "claim_map =
     [''camliVersion'' \<mapsto> SInt 1, ''camliType'' \<mapsto> SString ''claim'',
      ''attribute'' \<mapsto> SString ''tag'']"

definition claim_text :: string where
  \<open>claim_text =
     ''{"camliVersion": 1,\<newline>  "attribute": "tag",\<newline>  "camliType": "claim"\<newline>}''\<close>

definition untyped_map :: "string \<rightharpoonup> scalar" where
  "untyped_map = [''camliType'' \<mapsto> SString ''file'']"

text \<open>Blob references written as their canonical string, and parts built from them.\<close>

definition ref_String :: "string \<Rightarrow> string" where
  "ref_String r = r"

definition plain_part :: "64 word \<Rightarrow> string BytesPart" where
  "plain_part n = \<lparr>Size = n, BlobRef = None, BytesRef = None, Offset = 0\<rparr>"

definition conflicting_part :: "string BytesPart" where
  "conflicting_part =
     \<lparr>Size = 5, BlobRef = Some ''sha1-aa'', BytesRef = Some ''sha1-bb'', Offset = 0\<rparr>"

definition file_map :: camli_map where
  "file_map = [''camliVersion'' \<mapsto> GInt 1, ''camliType'' \<mapsto> GString ''file'']"

text \<open>The zero value of a Superset, and entries of three types.\<close>

definition zero_Superset :: "('b, 'f) Superset" where
  "zero_Superset =
     \<lparr>BlobRef = None, Version = 0, Type = [], Signer = [], Sig = [], ClaimType = [],
      ClaimDate = [], Permanode = [], Attribute = [], Value = [], FileName = [],
      FileNameBytes = [], SymlinkTarget = [], SymlinkTargetBytes = [], UnixPermission = [],
      UnixOwnerId = 0, UnixOwner = [], UnixGroupId = 0, UnixGroup = [], UnixMtime = [],
      UnixCtime = [], UnixAtime = [], Parts = [], Entries = [], Members = []\<rparr>"

definition audio_Superset :: "(string, nat) Superset" where
  "audio_Superset = zero_Superset\<lparr>Superset.BlobRef := Some ''sha1-aa'', Type := ''audio''\<rparr>"

definition file_Superset :: "(string, nat) Superset" where
  "file_Superset = zero_Superset\<lparr>Superset.BlobRef := Some ''sha1-aa'', Type := ''file''\<rparr>"

definition directory_Superset :: "(string, nat) Superset" where
  "directory_Superset =
     zero_Superset\<lparr>Superset.BlobRef := Some ''sha1-bb'', Type := ''directory''\<rparr>"

definition directory_entry :: "(string, nat, unit, nat, nat) dirEntry" where
  "directory_entry = \<lparr>ss = directory_Superset, fetcher = (), fr = None, dr = None\<rparr>"

definition file_entry :: "(string, nat, unit, nat, nat) dirEntry" where
  "file_entry = \<lparr>ss = file_Superset, fetcher = (), fr = None, dr = None\<rparr>"

definition reader_7 :: "unit \<Rightarrow> string option \<Rightarrow> unit + nat" where
  "reader_7 x b = Inr 7"

definition reader_8 :: "unit \<Rightarrow> string option \<Rightarrow> unit + nat" where
  "reader_8 x b = Inr 8"

text \<open>The decoded array \<^verbatim>\<open>["H", 105.7, null, 72, true]\<close>.\<close>

definition mixed_example :: "real json list" where
  "mixed_example = [JString ''H'', JNumber 105.7, JNull, JNumber 72, JBool True]"

declare decimal.simps [simp del]
declare PopulateParts_loop.simps(2) [simp del]

section \<open>MapToCamliJSON: the version key\<close>

lemma show_int_1: "show_int 1 = ''1''"
  by (simp add: show_int_def decimal.simps)

lemma claim_map_text:
  "MapToCamliJSON json_quote json_scalar fmt_scalar claim_map = (Inr claim_text, claim_map)"
  apply (simp add: MapToCamliJSON_def claim_map_def claim_text_def MarshalIndent_def
      camliVersion_line_def json_quote_def show_int_1)
  apply (rule ext)
  apply simp
  done

text \<open>
  Claim C5. MapToCamliJSON fails with the error for a missing version (ErrNoCamliVersion) if
  and only if the map has no \<^verbatim>\<open>camliVersion\<close> key, and in that case the map the caller holds is
  the map it passed in.
\<close>

theorem MapToCamliJSON_missing_version:
  "(fst (MapToCamliJSON ek ev fv m) = Inl ErrNoCamliVersion) = (m ''camliVersion'' = None)
   \<and> (m ''camliVersion'' = None \<longrightarrow> snd (MapToCamliJSON ek ev fv m) = m)"
  by (auto simp: MapToCamliJSON_def Let_def split: option.splits sum.splits)

text \<open>The map \<open>untyped_map\<close> has no version: the call fails and leaves it as it was.\<close>

theorem MapToCamliJSON_missing_version_witness:
  "MapToCamliJSON json_quote json_scalar fmt_scalar untyped_map
     = (Inl ErrNoCamliVersion, untyped_map)"
proof -
  have none: "untyped_map ''camliVersion'' = None"
    by (simp add: untyped_map_def)
  from MapToCamliJSON_missing_version [of json_quote json_scalar fmt_scalar untyped_map] none
  have "fst (MapToCamliJSON json_quote json_scalar fmt_scalar untyped_map) = Inl ErrNoCamliVersion"
    and "snd (MapToCamliJSON json_quote json_scalar fmt_scalar untyped_map) = untyped_map"
    by simp_all
  then show ?thesis by (simp add: prod_eq_iff)
qed

section \<open>MapToCamliJSON: the order of the keys\<close>

lemma encode_members_Inr:
  "encode_members ek ev m ks = Inr ms \<Longrightarrow> set ks \<subseteq> dom m \<Longrightarrow>
   map fst ms = map ek ks \<and> map (\<lambda>k. ev (the (m k))) ks = map (\<lambda>p. Inr (snd p)) ms"
  by (induction ks arbitrary: ms) (auto split: option.splits sum.splits)

lemma members_text_Cons:
  "members_text ((k, s) # ms) =
     ''  '' @ k @ '': '' @ s @ (if ms = [] then [] else '',\<newline>'' @ members_text ms)"
  by (cases ms) auto

lemma members_text_prefix:
  assumes "ms \<noteq> []"
  shows "prefix (''  '' @ fst (hd ms) @ '': '') (members_text ms @ rest)"
proof -
  obtain k s ms' where ms: "ms = (k, s) # ms'" using assms by (cases ms) auto
  show ?thesis unfolding ms by (simp add: members_text_Cons)
qed

lemma set_sorted_keys: "set (sorted_list_of_set (dom m)) \<subseteq> dom m"
  by (cases "finite (dom m)") (simp_all add: sorted_list_of_set.fold_insort_key.infinite)

lemma MarshalIndent_Inr:
  assumes "MarshalIndent ek ev m = Inr js"
  shows "\<exists>ms. map fst ms = map ek (sorted_list_of_set (dom m))
           \<and> map (\<lambda>k. ev (the (m k))) (sorted_list_of_set (dom m)) = map (\<lambda>p. Inr (snd p)) ms
           \<and> js = (if ms = [] then ''{}'' else ''{\<newline>'' @ members_text ms @ ''\<newline>}'')"
proof -
  from assms obtain ms where enc: "encode_members ek ev m (sorted_list_of_set (dom m)) = Inr ms"
    and js: "js = (if ms = [] then ''{}'' else ''{\<newline>'' @ members_text ms @ ''\<newline>}'')"
    by (auto simp: MarshalIndent_def split: sum.splits)
  from encode_members_Inr [OF enc set_sorted_keys] js show ?thesis by blast
qed

lemma hd_sorted_list_of_set:
  assumes "sorted_list_of_set A \<noteq> []"
  shows "hd (sorted_list_of_set A) = Min A"
proof -
  have fin: "finite A"
    using assms by (cases "finite A") (simp_all add: sorted_list_of_set.fold_insort_key.infinite)
  let ?xs = "sorted_list_of_set A"
  have "hd ?xs \<in> A" using assms fin by (metis hd_in_set set_sorted_list_of_set)
  moreover have "\<forall>y\<in>A. hd ?xs \<le> y"
  proof
    fix y assume "y \<in> A"
    then have "y \<in> set ?xs" using fin by simp
    moreover have "sorted ?xs" by simp
    ultimately show "hd ?xs \<le> y" using assms
      by (cases ?xs) auto
  qed
  ultimately show ?thesis using fin by (intro Min_eqI [symmetric]) auto
qed

lemma MapToCamliJSON_Inr:
  assumes "fst (MapToCamliJSON ek ev fv m) = Inr out"
  shows "\<exists>version js. m ''camliVersion'' = Some version
          \<and> MarshalIndent ek ev (m(''camliVersion'' := None)) = Inr js
          \<and> out = camliVersion_line (fv version) @ drop 2 js"
proof (cases "m ''camliVersion''")
  case None
  with assms show ?thesis by (simp add: MapToCamliJSON_def)
next
  case (Some version)
  show ?thesis
  proof (cases "MarshalIndent ek ev (m(''camliVersion'' := None))")
    case (Inl e)
    with Some assms show ?thesis by (simp add: MapToCamliJSON_def)
  next
    case (Inr js)
    with Some assms show ?thesis
      by (simp add: MapToCamliJSON_def Let_def split: if_splits)
  qed
qed

lemma restrict_vals:
  assumes "map (\<lambda>k. ev (the ((m(c := None)) k))) ks = vs" and "c \<notin> set ks"
  shows "map (\<lambda>k. ev (the (m k))) ks = vs"
proof -
  have "map (\<lambda>k. ev (the ((m(c := None)) k))) ks = map (\<lambda>k. ev (the (m k))) ks"
    using assms(2) by (intro map_cong) auto
  with assms(1) show ?thesis by simp
qed

lemma claim_map_other_keys:
  "dom claim_map - {''camliVersion''} = {''attribute'', ''camliType''}"
  by (auto simp: claim_map_def split: if_splits)

text \<open>
  Claim C1, as amended. When MapToCamliJSON serializes a map that has other keys besides
  \<^verbatim>\<open>camliVersion\<close>, the output is the line of the \<^verbatim>\<open>camliVersion\<close> key followed by one member
  for each other key of the map, in ascending byte order of the keys (\<open>ms\<close> pairs each
  rendered key with its rendered value); the second key is therefore the least of the other
  keys, whether or not that is \<^verbatim>\<open>camliType\<close>.
\<close>

theorem MapToCamliJSON_key_order:
  assumes "fst (MapToCamliJSON ek ev fv m) = Inr out"
  shows "\<exists>version ms.
           m ''camliVersion'' = Some version
         \<and> map fst ms = map ek (sorted_list_of_set (dom m - {''camliVersion''}))
         \<and> map (\<lambda>k. ev (the (m k))) (sorted_list_of_set (dom m - {''camliVersion''}))
             = map (\<lambda>p. Inr (snd p)) ms
         \<and> (ms \<noteq> [] \<longrightarrow>
              out = camliVersion_line (fv version) @ members_text ms @ ''\<newline>}''
            \<and> prefix (camliVersion_line (fv version) @ ''  ''
                        @ ek (Min (dom m - {''camliVersion''})) @ '': '') out)"
proof -
  let ?m1 = "m(''camliVersion'' := None)"
  let ?ks = "sorted_list_of_set (dom m - {''camliVersion''})"
  from MapToCamliJSON_Inr [OF assms] obtain version js
    where v: "m ''camliVersion'' = Some version"
    and mi: "MarshalIndent ek ev ?m1 = Inr js"
    and out: "out = camliVersion_line (fv version) @ drop 2 js"
    by blast
  have dom1: "dom ?m1 = dom m - {''camliVersion''}" by auto
  from MarshalIndent_Inr [OF mi] obtain ms where
    keys: "map fst ms = map ek ?ks"
    and vals: "map (\<lambda>k. ev (the (?m1 k))) ?ks = map (\<lambda>p. Inr (snd p)) ms"
    and js: "js = (if ms = [] then ''{}'' else ''{\<newline>'' @ members_text ms @ ''\<newline>}'')"
    unfolding dom1 by blast
  have "set ?ks \<subseteq> dom ?m1" using set_sorted_keys [of ?m1] unfolding dom1 .
  then have notin: "''camliVersion'' \<notin> set ?ks" by auto
  have vals': "map (\<lambda>k. ev (the (m k))) ?ks = map (\<lambda>p. Inr (snd p)) ms"
    by (rule restrict_vals [OF vals notin])
  have out': "out = camliVersion_line (fv version) @ members_text ms @ ''\<newline>}''"
    if ne: "ms \<noteq> []"
    unfolding out js using ne by simp
  have pre: "prefix (camliVersion_line (fv version) @ ''  ''
                        @ ek (Min (dom m - {''camliVersion''})) @ '': '') out" if ne: "ms \<noteq> []"
  proof -
    from ne keys have kne: "?ks \<noteq> []" by auto
    have "fst (hd ms) = hd (map fst ms)" using ne by (simp add: hd_map)
    also have "\<dots> = ek (hd ?ks)" unfolding keys using kne by (simp add: hd_map)
    also have "\<dots> = ek (Min (dom m - {''camliVersion''}))"
      using hd_sorted_list_of_set [OF kne] by simp
    finally have k: "fst (hd ms) = ek (Min (dom m - {''camliVersion''}))" .
    have "prefix (''  '' @ fst (hd ms) @ '': '') (members_text ms @ ''\<newline>}'')"
      by (rule members_text_prefix [OF ne])
    then have "prefix (camliVersion_line (fv version) @ (''  '' @ fst (hd ms) @ '': ''))
                 (camliVersion_line (fv version) @ (members_text ms @ ''\<newline>}''))"
      by (simp only: same_prefix_prefix)
    then show ?thesis unfolding out' [OF ne] k by simp
  qed
  have both: "ms \<noteq> [] \<longrightarrow>
              out = camliVersion_line (fv version) @ members_text ms @ ''\<newline>}''
            \<and> prefix (camliVersion_line (fv version) @ ''  ''
                        @ ek (Min (dom m - {''camliVersion''})) @ '': '') out"
    using out' pre by blast
  show ?thesis
    by (rule exI [of _ version], rule exI [of _ ms], intro conjI, rule v, rule keys,
        rule vals', rule both)
qed

text \<open>
  The map \<open>claim_map\<close> is serialized to \<open>claim_text\<close>, whose second key is the least other
  key, \<^verbatim>\<open>attribute\<close>.
\<close>

theorem MapToCamliJSON_key_order_witness:
  "fst (MapToCamliJSON json_quote json_scalar fmt_scalar claim_map) = Inr claim_text
   \<and> prefix (camliVersion_line ''1'' @ ''  '' @ json_quote ''attribute'' @ '': '') claim_text"
proof -
  have e: "fst (MapToCamliJSON json_quote json_scalar fmt_scalar claim_map) = Inr claim_text"
    by (simp add: claim_map_text)
  from MapToCamliJSON_key_order [OF e] obtain version ms where
    v: "claim_map ''camliVersion'' = Some version"
    and keys: "map fst (ms :: (string \<times> string) list)
                 = map json_quote (sorted_list_of_set (dom claim_map - {''camliVersion''}))"
    and pre: "ms \<noteq> [] \<longrightarrow>
              prefix (camliVersion_line (fmt_scalar version) @ ''  ''
                        @ json_quote (Min (dom claim_map - {''camliVersion''})) @ '': '')
                claim_text"
    by blast
  from v have "version = SInt 1" by (simp add: claim_map_def)
  then have fv: "fmt_scalar version = ''1''" by (simp add: show_int_1)
  from keys have "ms \<noteq> []" unfolding claim_map_other_keys by auto
  moreover have "Min (dom claim_map - {''camliVersion''}) = ''attribute''"
    unfolding claim_map_other_keys by simp
  ultimately have
    "prefix (camliVersion_line ''1'' @ ''  '' @ json_quote ''attribute'' @ '': '') claim_text"
    using pre fv by simp
  with e show ?thesis by (rule conjI)
qed

text \<open>
  Claim C1 as it was stated fails on \<open>claim_map\<close>, the shape of every attribute claim: the
  map has both \<^verbatim>\<open>camliVersion\<close> and \<^verbatim>\<open>camliType\<close> and is serialized, and the key that follows
  \<^verbatim>\<open>camliVersion\<close> in the output is \<^verbatim>\<open>attribute\<close>, not \<^verbatim>\<open>camliType\<close>.
\<close>

theorem MapToCamliJSON_second_key_counterexample:
  "claim_map ''camliVersion'' = Some (SInt 1)
   \<and> claim_map ''camliType'' = Some (SString ''claim'')
   \<and> fst (MapToCamliJSON json_quote json_scalar fmt_scalar claim_map) = Inr claim_text
   \<and> prefix (camliVersion_line (fmt_scalar (SInt 1)) @ ''  '' @ json_quote ''attribute'' @ '': '')
        claim_text
   \<and> \<not> prefix (camliVersion_line (fmt_scalar (SInt 1)) @ ''  '' @ json_quote ''camliType'' @ '': '')
        claim_text"
proof -
  have "prefix (camliVersion_line (fmt_scalar (SInt 1)) @ ''  '' @ json_quote ''attribute'' @ '': '')
        claim_text"
    by (simp add: camliVersion_line_def json_quote_def show_int_1 claim_text_def)
  moreover have
    "\<not> prefix (camliVersion_line (fmt_scalar (SInt 1)) @ ''  '' @ json_quote ''camliType'' @ '': '')
        claim_text"
    by (simp add: camliVersion_line_def json_quote_def show_int_1 claim_text_def)
  moreover have "claim_map ''camliVersion'' = Some (SInt 1)"
    "claim_map ''camliType'' = Some (SString ''claim'')"
    by (simp_all add: claim_map_def)
  ultimately show ?thesis using claim_map_text by simp
qed

section \<open>PopulateParts\<close>

lemma loop_both:
  "both_refs part \<Longrightarrow> PopulateParts_loop bs idx (part # rest) s mparts = Inl ErrBothRefs"
  by (simp add: both_refs_def PopulateParts_loop.simps)

lemma loop_step:
  assumes "\<not> both_refs part"
  shows "PopulateParts_loop bs idx (part # rest) s mparts
           = PopulateParts_loop bs (idx + 1) rest (s + Size part)
               (mparts[idx := Some (part_entry bs part)])"
  using assms unfolding both_refs_def PopulateParts_loop.simps part_entry_def Let_def
  by (simp only: if_False if_not_P)

lemma part_entry_size: "part_entry bs part ''size'' = Some (GUint64 (Size part))"
  by (simp add: part_entry_def Let_def)

lemma part_entry_offset:
  "part_entry bs part ''offset'' =
     (if Offset part = 0 then None else Some (GUint64 (Offset part)))"
  by (simp add: part_entry_def Let_def)

lemma part_entry_blobRef:
  "part_entry bs part ''blobRef'' = map_option (\<lambda>b. GString (bs b)) (BytesPart.BlobRef part)"
  by (cases "BytesPart.BlobRef part") (simp_all add: part_entry_def Let_def)

lemma part_entry_bytesRef:
  "\<not> both_refs part \<Longrightarrow>
   part_entry bs part ''bytesRef'' = map_option (\<lambda>b. GString (bs b)) (BytesRef part)"
  by (cases "BytesRef part") (auto simp: part_entry_def Let_def both_refs_def)

lemma part_entry_dom:
  "dom (part_entry bs part) \<subseteq> {''size'', ''blobRef'', ''bytesRef'', ''offset''}"
  by (auto simp: part_entry_def Let_def split: if_splits)

lemma loop_conflict:
  "\<exists>p\<in>set parts. both_refs p \<Longrightarrow>
   PopulateParts_loop bs idx parts s mparts = Inl ErrBothRefs"
proof (induction parts arbitrary: idx s mparts)
  case Nil
  then show ?case by simp
next
  case (Cons part rest)
  show ?case
  proof (cases "both_refs part")
    case True
    then show ?thesis by (rule loop_both)
  next
    case False
    with Cons.prems have "\<exists>p\<in>set rest. both_refs p" by auto
    then show ?thesis unfolding loop_step [OF False] by (rule Cons.IH)
  qed
qed

text \<open>
  Without a conflicting part the loop ends with the wrapped sum of the sizes and has written
  the slots \<open>idx\<close>, \<open>idx + 1\<close>, ... of \<open>mparts\<close>, one for each part.
\<close>

lemma loop_ok:
  "\<forall>p\<in>set parts. \<not> both_refs p \<Longrightarrow> idx + length parts \<le> length mparts \<Longrightarrow>
   PopulateParts_loop bs idx parts s mparts =
     Inr (s + sum_list (map Size parts),
          take idx mparts @ map (\<lambda>p. Some (part_entry bs p)) parts
            @ drop (idx + length parts) mparts)"
proof (induction parts arbitrary: idx s mparts)
  case Nil
  then show ?case by simp
next
  case (Cons part rest)
  then have nb: "\<not> both_refs part" and rest: "\<forall>p\<in>set rest. \<not> both_refs p" by auto
  let ?mp = "part_entry bs part"
  have step: "PopulateParts_loop bs idx (part # rest) s mparts
        = PopulateParts_loop bs (idx + 1) rest (s + Size part) (mparts[idx := Some ?mp])"
    by (rule loop_step [OF nb])
  have len: "idx + 1 + length rest \<le> length (mparts[idx := Some ?mp])"
    using Cons.prems(2) by simp
  have idx: "idx < length mparts" using Cons.prems(2) by simp
  have "take (idx + 1) (mparts[idx := Some ?mp]) = take idx mparts @ [Some ?mp]"
    using idx by (simp add: take_Suc_conv_app_nth)
  moreover have "drop (idx + 1 + length rest) (mparts[idx := Some ?mp])
                   = drop (idx + length (part # rest)) mparts"
    by simp
  ultimately show ?case
    unfolding step Cons.IH [OF rest len]
    by (simp add: add.assoc)
qed

lemma uint_sum_list:
  "uint (sum_list (ws :: 64 word list)) = (\<Sum>w\<leftarrow>ws. uint w) mod 2 ^ 64"
proof (induction ws)
  case Nil
  show ?case by simp
next
  case (Cons w ws)
  have "uint (w + sum_list ws) = (uint w + uint (sum_list ws)) mod 2 ^ 64"
    by (simp add: uint_word_ariths)
  also have "\<dots> = (uint w + (\<Sum>w\<leftarrow>ws. uint w) mod 2 ^ 64) mod 2 ^ 64"
    unfolding Cons.IH ..
  also have "\<dots> = (uint w + (\<Sum>w\<leftarrow>ws. uint w)) mod 2 ^ 64"
    by (simp add: mod_add_right_eq)
  finally show ?case by simp
qed

lemma sum_sizes_eq:
  "(sum_list (map Size parts) = size') =
     ((\<Sum>p\<leftarrow>parts. uint (Size p)) mod 2 ^ 64 = uint size')"
proof -
  have "(sum_list (map Size parts) = size') = (uint (sum_list (map Size parts)) = uint size')"
    by (simp add: word_uint_eq_iff)
  also have "uint (sum_list (map Size parts)) = (\<Sum>p\<leftarrow>parts. uint (Size p)) mod 2 ^ 64"
    unfolding uint_sum_list by (simp add: comp_def)
  finally show ?thesis .
qed

lemma PopulateParts_conflict:
  assumes "\<exists>p\<in>set parts. both_refs p"
  shows "PopulateParts bs m size' parts = (Some ErrBothRefs, m)"
  unfolding PopulateParts_def loop_conflict [OF assms] by simp

lemma PopulateParts_no_conflict:
  assumes "\<forall>p\<in>set parts. \<not> both_refs p"
  shows "(PopulateParts bs m size' parts :: 'e schema_error option \<times> camli_map) =
           (if sum_list (map Size parts) \<noteq> size'
            then (Some (ErrSizeMismatch size' (sum_list (map Size parts))), m)
            else (None, m(''parts'' \<mapsto> GMaps (map (\<lambda>p. Some (part_entry bs p)) parts))))"
proof -
  have "(PopulateParts_loop bs 0 parts 0 (replicate (length parts) None)
           :: 'e schema_error + (64 word \<times> camli_map option list))
          = Inr (sum_list (map Size parts), map (\<lambda>p. Some (part_entry bs p)) parts)"
    using loop_ok [OF assms, of 0 "replicate (length parts) None" bs 0] by simp
  then show ?thesis unfolding PopulateParts_def by simp
qed

text \<open>
  Claim C2, as amended. If a part has both references set, PopulateParts fails with the
  conflict error (ErrBothRefs), whatever the sizes. If no part has both and the sum of the
  part sizes differs from the declared size modulo \<open>2 ^ 64\<close> (the code adds and compares in
  64-bit arithmetic), it fails with the size error, which carries the declared size and the
  wrapped sum. Whenever it fails, the map is the one that was passed in.
\<close>

theorem PopulateParts_validation:
  "((\<exists>p\<in>set parts. both_refs p) \<longrightarrow>
      PopulateParts bs m size' parts = (Some ErrBothRefs, m))
   \<and> ((\<forall>p\<in>set parts. \<not> both_refs p)
        \<and> (\<Sum>p\<leftarrow>parts. uint (Size p)) mod 2 ^ 64 \<noteq> uint size' \<longrightarrow>
      PopulateParts bs m size' parts
        = (Some (ErrSizeMismatch size' (sum_list (map Size parts))), m))
   \<and> (fst (PopulateParts bs m size' parts) \<noteq> None \<longrightarrow>
      snd (PopulateParts bs m size' parts) = m)"
proof (intro conjI impI)
  assume "\<exists>p\<in>set parts. both_refs p"
  then show "PopulateParts bs m size' parts = (Some ErrBothRefs, m)"
    by (rule PopulateParts_conflict)
next
  assume a: "(\<forall>p\<in>set parts. \<not> both_refs p)
     \<and> (\<Sum>p\<leftarrow>parts. uint (Size p)) mod 2 ^ 64 \<noteq> uint size'"
  then have "sum_list (map Size parts) \<noteq> size'" by (simp add: sum_sizes_eq)
  with a show "PopulateParts bs m size' parts
        = (Some (ErrSizeMismatch size' (sum_list (map Size parts))), m)"
    by (simp add: PopulateParts_no_conflict)
next
  assume f: "fst (PopulateParts bs m size' parts) \<noteq> None"
  show "snd (PopulateParts bs m size' parts) = m"
  proof (cases "\<exists>p\<in>set parts. both_refs p")
    case True
    then show ?thesis by (simp add: PopulateParts_conflict)
  next
    case False
    then have nb: "\<forall>p\<in>set parts. \<not> both_refs p" by simp
    from f show ?thesis unfolding PopulateParts_no_conflict [OF nb, of bs m size']
      by (simp split: if_splits)
  qed
qed

text \<open>
  A part with both references is refused, and one part of 100 bytes against a declared size
  of 50 is refused; the map \<open>file_map\<close> comes back as it was.
\<close>

theorem PopulateParts_validation_witness:
  "PopulateParts ref_String file_map 5 [conflicting_part]
     = (Some (ErrBothRefs :: unit schema_error), file_map)
   \<and> PopulateParts ref_String file_map 50 [plain_part 100]
     = (Some (ErrSizeMismatch 50 100 :: unit schema_error), file_map)"
proof -
  have c: "\<exists>p\<in>set [conflicting_part]. both_refs p"
    by (simp add: both_refs_def conflicting_part_def)
  have n: "(\<forall>p\<in>set [plain_part 100]. \<not> both_refs p)
     \<and> (\<Sum>p\<leftarrow>[plain_part 100]. uint (Size p)) mod 2 ^ 64 \<noteq> uint (50 :: 64 word)"
    by (simp add: both_refs_def plain_part_def)
  have s: "sum_list (map Size [plain_part 100]) = 100"
    by (simp add: plain_part_def)
  from PopulateParts_validation [of "[conflicting_part]" ref_String file_map 5] c
  have 1: "PopulateParts ref_String file_map 5 [conflicting_part]
     = (Some (ErrBothRefs :: unit schema_error), file_map)" by blast
  from PopulateParts_validation [of "[plain_part 100]" ref_String file_map 50] n
  have "PopulateParts ref_String file_map 50 [plain_part 100]
     = (Some (ErrSizeMismatch 50 (sum_list (map Size [plain_part 100])) :: unit schema_error),
        file_map)" by blast
  then have 2: "PopulateParts ref_String file_map 50 [plain_part 100]
     = (Some (ErrSizeMismatch 50 100 :: unit schema_error), file_map)"
    unfolding s .
  from 1 2 show ?thesis by (rule conjI)
qed

text \<open>
  Claim C2 as it was stated fails for one part of 18446744073709551615 bytes and the declared
  size -1: the sum of the part sizes is not the declared size, yet \<^verbatim>\<open>int64(part.Size)\<close> is -1,
  the comparison finds them equal, no error is returned and the \<^verbatim>\<open>parts\<close> key is written.
\<close>

theorem PopulateParts_sum_counterexample:
  "uint (Size (plain_part 18446744073709551615)) = 18446744073709551615
   \<and> sint (- 1 :: 64 word) = - 1
   \<and> PopulateParts ref_String file_map (- 1) [plain_part 18446744073709551615]
       = (None :: unit schema_error option,
          file_map(''parts'' \<mapsto> GMaps [Some [''size'' \<mapsto> GUint64 18446744073709551615]]))"
  by (simp add: PopulateParts_def PopulateParts_loop.simps plain_part_def both_refs_def Let_def)

text \<open>
  Claim C3, as amended. When PopulateParts succeeds, the \<^verbatim>\<open>parts\<close> key holds one map for each
  input part, in order. The map of a part has a \<^verbatim>\<open>size\<close> entry with the part's size, a
  \<^verbatim>\<open>blobRef\<close> entry exactly when the part's BlobRef is set, a \<^verbatim>\<open>bytesRef\<close> entry exactly when
  its BytesRef is set, never both (and neither when the part has no reference), an \<^verbatim>\<open>offset\<close>
  entry exactly when the part's Offset is not zero, and no other key.
\<close>

theorem PopulateParts_entries:
  assumes "fst (PopulateParts bs m size' parts :: 'e schema_error option \<times> camli_map) = None"
  shows "\<exists>mparts. snd (PopulateParts bs m size' parts :: 'e schema_error option \<times> camli_map)
                    = m(''parts'' \<mapsto> GMaps mparts)
     \<and> length mparts = length parts
     \<and> (\<forall>i<length parts. \<exists>mp. mparts ! i = Some mp
           \<and> mp ''size'' = Some (GUint64 (Size (parts ! i)))
           \<and> mp ''blobRef'' = map_option (\<lambda>b. GString (bs b)) (BytesPart.BlobRef (parts ! i))
           \<and> mp ''bytesRef'' = map_option (\<lambda>b. GString (bs b)) (BytesRef (parts ! i))
           \<and> \<not> (mp ''blobRef'' \<noteq> None \<and> mp ''bytesRef'' \<noteq> None)
           \<and> mp ''offset'' = (if Offset (parts ! i) = 0 then None
                               else Some (GUint64 (Offset (parts ! i))))
           \<and> dom mp \<subseteq> {''size'', ''blobRef'', ''bytesRef'', ''offset''})"
proof -
  have nb: "\<forall>p\<in>set parts. \<not> both_refs p"
  proof (rule ccontr)
    assume "\<not> (\<forall>p\<in>set parts. \<not> both_refs p)"
    then have "\<exists>p\<in>set parts. both_refs p" by simp
    then have "PopulateParts bs m size' parts = (Some ErrBothRefs :: 'e schema_error option, m)"
      by (rule PopulateParts_conflict)
    with assms show False by simp
  qed
  let ?mparts = "map (\<lambda>p. Some (part_entry bs p)) parts"
  from assms have res: "snd (PopulateParts bs m size' parts :: 'e schema_error option \<times> camli_map)
                          = m(''parts'' \<mapsto> GMaps ?mparts)"
    unfolding PopulateParts_no_conflict [OF nb, of bs m size'] by (simp split: if_splits)
  have each: "\<exists>mp. ?mparts ! i = Some mp
           \<and> mp ''size'' = Some (GUint64 (Size (parts ! i)))
           \<and> mp ''blobRef'' = map_option (\<lambda>b. GString (bs b)) (BytesPart.BlobRef (parts ! i))
           \<and> mp ''bytesRef'' = map_option (\<lambda>b. GString (bs b)) (BytesRef (parts ! i))
           \<and> \<not> (mp ''blobRef'' \<noteq> None \<and> mp ''bytesRef'' \<noteq> None)
           \<and> mp ''offset'' = (if Offset (parts ! i) = 0 then None
                               else Some (GUint64 (Offset (parts ! i))))
           \<and> dom mp \<subseteq> {''size'', ''blobRef'', ''bytesRef'', ''offset''}"
    if i: "i < length parts" for i
  proof -
    from i nb have nbi: "\<not> both_refs (parts ! i)" by simp
    have mp: "?mparts ! i = Some (part_entry bs (parts ! i))" using i by simp
    have one: "\<not> (part_entry bs (parts ! i) ''blobRef'' \<noteq> None
                 \<and> part_entry bs (parts ! i) ''bytesRef'' \<noteq> None)"
      using nbi unfolding part_entry_blobRef part_entry_bytesRef [OF nbi] both_refs_def by simp
    show ?thesis
      using mp part_entry_size [of bs "parts ! i"] part_entry_blobRef [of bs "parts ! i"]
        part_entry_bytesRef [OF nbi, of bs] one part_entry_offset [of bs "parts ! i"]
        part_entry_dom [of bs "parts ! i"]
      by blast
  qed
  then have all: "\<forall>i<length parts. \<exists>mp. ?mparts ! i = Some mp
           \<and> mp ''size'' = Some (GUint64 (Size (parts ! i)))
           \<and> mp ''blobRef'' = map_option (\<lambda>b. GString (bs b)) (BytesPart.BlobRef (parts ! i))
           \<and> mp ''bytesRef'' = map_option (\<lambda>b. GString (bs b)) (BytesRef (parts ! i))
           \<and> \<not> (mp ''blobRef'' \<noteq> None \<and> mp ''bytesRef'' \<noteq> None)
           \<and> mp ''offset'' = (if Offset (parts ! i) = 0 then None
                               else Some (GUint64 (Offset (parts ! i))))
           \<and> dom mp \<subseteq> {''size'', ''blobRef'', ''bytesRef'', ''offset''}"
    by blast
  have len: "length ?mparts = length parts" by simp
  show ?thesis
    by (rule exI [of _ ?mparts], intro conjI, rule res, rule len, rule all)
qed

text \<open>Two parts of 30 and 20 bytes with a declared size of 50 are accepted and written.\<close>

theorem PopulateParts_entries_witness:
  "fst (PopulateParts ref_String file_map 50 [plain_part 30, plain_part 20]
          :: unit schema_error option \<times> camli_map) = None
   \<and> snd (PopulateParts ref_String file_map 50 [plain_part 30, plain_part 20]
          :: unit schema_error option \<times> camli_map) ''parts'' \<noteq> None"
proof -
  have ok: "fst (PopulateParts ref_String file_map 50 [plain_part 30, plain_part 20]
          :: unit schema_error option \<times> camli_map) = None"
    by (simp add: PopulateParts_def PopulateParts_loop.simps plain_part_def both_refs_def Let_def)
  from PopulateParts_entries [OF ok] obtain mparts where
    "snd (PopulateParts ref_String file_map 50 [plain_part 30, plain_part 20]
          :: unit schema_error option \<times> camli_map) = file_map(''parts'' \<mapsto> GMaps mparts)"
    by blast
  then have "snd (PopulateParts ref_String file_map 50 [plain_part 30, plain_part 20]
          :: unit schema_error option \<times> camli_map) ''parts'' \<noteq> None"
    by simp
  with ok show ?thesis by (rule conjI)
qed

text \<open>
  Claim C3 as it was stated fails on the same input: the two parts have no reference, the
  call succeeds, and the entries written have a \<^verbatim>\<open>size\<close> and neither \<^verbatim>\<open>blobRef\<close> nor
  \<^verbatim>\<open>bytesRef\<close>.
\<close>

theorem PopulateParts_no_reference_counterexample:
  "PopulateParts ref_String file_map 50 [plain_part 30, plain_part 20]
     = (None :: unit schema_error option,
        file_map(''parts'' \<mapsto>
          GMaps [Some [''size'' \<mapsto> GUint64 30], Some [''size'' \<mapsto> GUint64 20]]))
   \<and> [''size'' \<mapsto> GUint64 30] ''blobRef'' = None
   \<and> [''size'' \<mapsto> GUint64 30] ''bytesRef'' = None"
  by (simp add: PopulateParts_def PopulateParts_loop.simps plain_part_def both_refs_def Let_def)

section \<open>File names and symlink targets\<close>

lemma mixed_part_append: "mixed_part byte buf part = buf @ element_bytes byte part"
  by (cases part) (simp_all add: element_bytes_def)

lemma foldl_mixed_part:
  "foldl (mixed_part byte) buf parts = buf @ concat (map (element_bytes byte) parts)"
  by (induction parts arbitrary: buf) (simp_all add: mixed_part_append)

text \<open>
  The decoder is a total function of the array: its result is the concatenation of what the
  elements contribute, and an element that is neither a string nor a number contributes
  nothing.
\<close>

lemma stringFromMixedArray_concat:
  "stringFromMixedArray byte parts = concat (map (element_bytes byte) parts)"
  by (simp add: stringFromMixedArray_def foldl_mixed_part)

lemma element_bytes_other:
  "element_bytes byte JNull = [] \<and> element_bytes byte (JBool b) = []
   \<and> element_bytes byte (JArray xs) = [] \<and> element_bytes byte (JObject obj) = []"
  by (simp add: element_bytes_def)

text \<open>
  Claim C4. FileNameString returns the \<^verbatim>\<open>FileName\<close> field whenever it is not empty, and
  otherwise the bytes put together from \<^verbatim>\<open>FileNameBytes\<close>, where a string element contributes
  its bytes and a numeric element one byte; SymlinkTargetString does the same with its two
  fields. With an empty \<^verbatim>\<open>FileName\<close> and the array \<^verbatim>\<open>["H","i"]\<close> the result is \<^verbatim>\<open>Hi\<close>, and with
  \<^verbatim>\<open>FileName\<close> set to \<^verbatim>\<open>X\<close> it is \<^verbatim>\<open>X\<close>.
\<close>

theorem FileNameString_precedence:
  "(FileName s \<noteq> [] \<longrightarrow> FileNameString byte s = FileName s)
   \<and> (FileName s = [] \<longrightarrow>
        FileNameString byte s = concat (map (element_bytes byte) (FileNameBytes s)))
   \<and> (SymlinkTarget s \<noteq> [] \<longrightarrow> SymlinkTargetString byte s = SymlinkTarget s)
   \<and> (SymlinkTarget s = [] \<longrightarrow>
        SymlinkTargetString byte s = concat (map (element_bytes byte) (SymlinkTargetBytes s)))
   \<and> element_bytes byte (JString str) = str
   \<and> element_bytes byte (JNumber num) = [byte num]
   \<and> FileNameString byte (s\<lparr>FileName := [], FileNameBytes := [JString ''H'', JString ''i'']\<rparr>)
        = ''Hi''
   \<and> FileNameString byte (s\<lparr>FileName := ''X'', FileNameBytes := [JString ''H'', JString ''i'']\<rparr>)
        = ''X''"
  by (simp add: FileNameString_def SymlinkTargetString_def stringFromMixedArray_concat
      element_bytes_def)

text \<open>
  Four Supersets, with numbers standing for themselves as byte values: a set name wins over
  the array, and the array \<^verbatim>\<open>["H", 105, null]\<close> decodes to \<^verbatim>\<open>Hi\<close>.
\<close>

theorem FileNameString_precedence_witness:
  "FileNameString (\<lambda>n. char_of (n :: nat))
     ((zero_Superset :: (string, nat) Superset)
        \<lparr>FileName := ''X'', FileNameBytes := [JNumber 72]\<rparr>) = ''X''
   \<and> FileNameString (\<lambda>n. char_of (n :: nat))
     ((zero_Superset :: (string, nat) Superset)
        \<lparr>FileNameBytes := [JString ''H'', JNumber 105, JNull]\<rparr>) = ''Hi''
   \<and> SymlinkTargetString (\<lambda>n. char_of (n :: nat))
     ((zero_Superset :: (string, nat) Superset)
        \<lparr>SymlinkTarget := ''t'', SymlinkTargetBytes := [JNumber 72]\<rparr>) = ''t''
   \<and> SymlinkTargetString (\<lambda>n. char_of (n :: nat))
     ((zero_Superset :: (string, nat) Superset)
        \<lparr>SymlinkTargetBytes := [JString ''H'', JNumber 105, JNull]\<rparr>) = ''Hi''"
proof -
  let ?byte = "\<lambda>n. char_of (n :: nat)"
  let ?a = "(zero_Superset :: (string, nat) Superset)
              \<lparr>FileName := ''X'', FileNameBytes := [JNumber 72]\<rparr>"
  let ?b = "(zero_Superset :: (string, nat) Superset)
              \<lparr>FileNameBytes := [JString ''H'', JNumber 105, JNull]\<rparr>"
  let ?c = "(zero_Superset :: (string, nat) Superset)
              \<lparr>SymlinkTarget := ''t'', SymlinkTargetBytes := [JNumber 72]\<rparr>"
  let ?d = "(zero_Superset :: (string, nat) Superset)
              \<lparr>SymlinkTargetBytes := [JString ''H'', JNumber 105, JNull]\<rparr>"
  have a: "FileName ?a \<noteq> []" and b: "FileName ?b = []"
    and c: "SymlinkTarget ?c \<noteq> []" and d: "SymlinkTarget ?d = []"
    by (simp_all add: zero_Superset_def)
  have i: "char_of (105 :: nat) = CHR ''i''" by code_simp
  from FileNameString_precedence [of ?a ?byte] a have "FileNameString ?byte ?a = ''X''" by simp
  moreover from FileNameString_precedence [of ?b ?byte] b
  have "FileNameString ?byte ?b = ''Hi''"
    by (simp add: element_bytes_def i)
  moreover from FileNameString_precedence [of ?c ?byte] c
  have "SymlinkTargetString ?byte ?c = ''t''"
    by simp
  moreover from FileNameString_precedence [of ?d ?byte] d
  have "SymlinkTargetString ?byte ?d = ''Hi''"
    by (simp add: element_bytes_def i)
  ultimately show ?thesis by simp
qed

section \<open>The bytes of a mixed array\<close>

lemma char_of_int_examples:
  "char_of (105 :: int) = CHR ''i''" "char_of (72 :: int) = CHR ''H''"
  "char_of (- 2147483648 :: int) = CHR 0x00" "char_of (5 :: int) = CHR 0x05"
  by code_simp+

text \<open>The gc compiler's conversion agrees with the language where the language fixes it.\<close>

lemma go_byte_gc_amd64: "go_byte gc_amd64 num = gc_amd64 num"
  by (simp add: go_byte_def gc_amd64_def Let_def)

lemma length_element_bytes: "length (element_bytes byte part) = emitted_length part"
  by (cases part) (simp_all add: element_bytes_def emitted_length_def)

lemma element_bytes_skipped: "\<not> string_or_number part \<Longrightarrow> element_bytes byte part = []"
  by (cases part) (simp_all add: element_bytes_def string_or_number_def)

lemma concat_filter_string_or_number:
  "concat (map (element_bytes byte) (filter string_or_number parts))
     = concat (map (element_bytes byte) parts)"
  by (induction parts) (simp_all add: element_bytes_skipped)

lemma element_bytes_fits:
  "fits_byte part \<Longrightarrow> element_bytes (go_byte impl) part = claimed_bytes part"
  by (cases part)
    (simp_all add: element_bytes_def claimed_bytes_def fits_byte_def go_byte_def Let_def)

lemma element_bytes_decoded: "element_bytes (go_byte impl) part = decoded_bytes impl part"
  by (cases part) (simp_all add: element_bytes_def decoded_bytes_def go_byte_def Let_def)

text \<open>
  Claim C10, as amended. The mixed-array decoder never fails: it has no error result, and for
  every array it returns a byte sequence to which a string gives its bytes, a number exactly
  one byte and any other element nothing, so that dropping the elements that are neither
  string nor number does not change the result. A number whose truncated value lies in
  0..255 is emitted as its value truncated modulo 256 (which is the truncated value itself);
  any other number is emitted as the byte the implementation's conversion gives it. So an
  array all of whose numbers a byte can represent decodes as the claim says, for every
  implementation.
\<close>

theorem stringFromMixedArray_bytes:
  "length (stringFromMixedArray (go_byte impl) parts) = sum_list (map emitted_length parts)
   \<and> stringFromMixedArray (go_byte impl) (filter string_or_number parts)
       = stringFromMixedArray (go_byte impl) parts
   \<and> stringFromMixedArray (go_byte impl) parts = concat (map (decoded_bytes impl) parts)
   \<and> ((\<forall>p\<in>set parts. fits_byte p) \<longrightarrow>
        stringFromMixedArray (go_byte impl) parts = concat (map claimed_bytes parts))"
proof (intro conjI impI)
  have "element_bytes (go_byte impl) = decoded_bytes impl"
    by (rule ext) (rule element_bytes_decoded)
  then show "stringFromMixedArray (go_byte impl) parts = concat (map (decoded_bytes impl) parts)"
    unfolding stringFromMixedArray_concat by simp
  show "length (stringFromMixedArray (go_byte impl) parts) = sum_list (map emitted_length parts)"
    unfolding stringFromMixedArray_concat
    by (simp add: length_concat comp_def length_element_bytes)
  show "stringFromMixedArray (go_byte impl) (filter string_or_number parts)
       = stringFromMixedArray (go_byte impl) parts"
    unfolding stringFromMixedArray_concat by (rule concat_filter_string_or_number)
  assume "\<forall>p\<in>set parts. fits_byte p"
  then have "map (element_bytes (go_byte impl)) parts = map claimed_bytes parts"
    by (intro map_cong refl element_bytes_fits) simp
  then show "stringFromMixedArray (go_byte impl) parts = concat (map claimed_bytes parts)"
    unfolding stringFromMixedArray_concat by (rule arg_cong)
qed

text \<open>
  The array \<open>mixed_example\<close> decodes to \<^verbatim>\<open>HiH\<close>: 105.7 gives the byte 105, and the two
  elements that are neither string nor number give nothing.
\<close>

theorem stringFromMixedArray_bytes_witness:
  "stringFromMixedArray (go_byte gc_amd64) mixed_example = ''HiH''
   \<and> length (stringFromMixedArray (go_byte gc_amd64) mixed_example) = 3"
proof -
  have fits: "\<forall>p\<in>set mixed_example. fits_byte p"
    by (simp add: mixed_example_def fits_byte_def trunc_def)
  have claimed: "concat (map claimed_bytes mixed_example) = ''HiH''"
    by (simp add: mixed_example_def claimed_bytes_def trunc_def char_of_int_examples)
  from stringFromMixedArray_bytes [of gc_amd64 mixed_example] fits
  have "stringFromMixedArray (go_byte gc_amd64) mixed_example
          = concat (map claimed_bytes mixed_example)"
    by blast
  then have 1: "stringFromMixedArray (go_byte gc_amd64) mixed_example = ''HiH''"
    unfolding claimed .
  then have 2: "length (stringFromMixedArray (go_byte gc_amd64) mixed_example) = 3" by simp
  from 1 2 show ?thesis by (rule conjI)
qed

text \<open>
  Claim C10 as it was stated fails on the array \<^verbatim>\<open>[2147483653]\<close>: the value truncated modulo
  256 is 5, but the number does not fit an \<^verbatim>\<open>int32\<close>, and the byte the gc compiler's conversion
  emits on amd64 is 0.
\<close>

theorem stringFromMixedArray_large_number_counterexample:
  "stringFromMixedArray (go_byte gc_amd64) [JNumber 2147483653] = [CHR 0x00]
   \<and> concat (map claimed_bytes [JNumber 2147483653]) = [CHR 0x05]"
  by (simp add: stringFromMixedArray_def go_byte_def gc_amd64_def claimed_bytes_def trunc_def
      char_of_int_examples)

section \<open>Directory entries\<close>

text \<open>
  Claim C6. NewDirectoryEntry returns an error if and only if the Superset is nil, or its
  BlobRef is nil, or its Type is not one of \<^verbatim>\<open>file\<close>, \<^verbatim>\<open>directory\<close>, \<^verbatim>\<open>symlink\<close>; in the last
  case, reached with a Superset and a BlobRef that are not nil, the error is the one for an
  invalid type. A Superset of type \<^verbatim>\<open>audio\<close> fails with it, and one of type \<^verbatim>\<open>file\<close> with a nil
  BlobRef fails.
\<close>

theorem NewDirectoryEntry_error_iff:
  fixes sp :: "('b, 'f) Superset option" and s0 :: "('b, 'f) Superset" and fetcher' :: 'x
  shows
  "isl (NewDirectoryEntry fetcher' sp :: 'e schema_error + ('b, 'f, 'x, 'fr, 'dr) dirEntry) =
     (case sp of
        None \<Rightarrow> True
      | Some s \<Rightarrow> Superset.BlobRef s = None
                 \<or> Type s \<notin> {''file'', ''directory'', ''symlink''})
   \<and> (\<forall>s. sp = Some s \<and> Superset.BlobRef s \<noteq> None
             \<and> Type s \<notin> {''file'', ''directory'', ''symlink''}
          \<longrightarrow> (NewDirectoryEntry fetcher' sp
                  :: 'e schema_error + ('b, 'f, 'x, 'fr, 'dr) dirEntry)
                = Inl (ErrInvalidType (Type s)))
   \<and> (NewDirectoryEntry fetcher' (Some (s0\<lparr>Superset.BlobRef := Some b, Type := ''audio''\<rparr>))
         :: 'e schema_error + ('b, 'f, 'x, 'fr, 'dr) dirEntry)
       = Inl (ErrInvalidType ''audio'')
   \<and> isl (NewDirectoryEntry fetcher' (Some (s0\<lparr>Superset.BlobRef := None, Type := ''file''\<rparr>))
         :: 'e schema_error + ('b, 'f, 'x, 'fr, 'dr) dirEntry)"
  by (auto simp: NewDirectoryEntry_def split: option.splits)

text \<open>
  A Superset of type \<^verbatim>\<open>audio\<close> with a BlobRef is refused as an invalid type, a nil Superset
  is refused, and a Superset of type \<^verbatim>\<open>file\<close> with a BlobRef is accepted.
\<close>

theorem NewDirectoryEntry_error_iff_witness:
  "(NewDirectoryEntry () (Some audio_Superset)
      :: unit schema_error + (string, nat, unit, nat, nat) dirEntry)
     = Inl (ErrInvalidType ''audio'')
   \<and> isl (NewDirectoryEntry () (None :: (string, nat) Superset option)
      :: unit schema_error + (string, nat, unit, nat, nat) dirEntry)
   \<and> \<not> isl (NewDirectoryEntry () (Some file_Superset)
      :: unit schema_error + (string, nat, unit, nat, nat) dirEntry)"
proof -
  have a: "Some audio_Superset = Some audio_Superset
             \<and> Superset.BlobRef audio_Superset \<noteq> None
             \<and> Type audio_Superset \<notin> {''file'', ''directory'', ''symlink''}"
    by (simp add: audio_Superset_def zero_Superset_def)
  have t: "Type audio_Superset = ''audio''"
    by (simp add: audio_Superset_def)
  have f: "\<not> (Superset.BlobRef file_Superset = None
             \<or> Type file_Superset \<notin> {''file'', ''directory'', ''symlink''})"
    by (simp add: file_Superset_def zero_Superset_def)
  note t1 = NewDirectoryEntry_error_iff
    [where sp = "Some audio_Superset" and fetcher' = "()"
       and ?'e = unit and ?'fr = nat and ?'dr = nat,
     THEN conjunct2, THEN conjunct1, rule_format, OF a]
  note t2 = NewDirectoryEntry_error_iff
    [where sp = "None :: (string, nat) Superset option" and fetcher' = "()"
       and ?'e = unit and ?'fr = nat and ?'dr = nat, THEN conjunct1]
  note t3 = NewDirectoryEntry_error_iff
    [where sp = "Some file_Superset" and fetcher' = "()"
       and ?'e = unit and ?'fr = nat and ?'dr = nat, THEN conjunct1]
  from t1 t have 1: "(NewDirectoryEntry () (Some audio_Superset)
      :: unit schema_error + (string, nat, unit, nat, nat) dirEntry)
       = Inl (ErrInvalidType ''audio'')"
    by simp
  from t2 have 2: "isl (NewDirectoryEntry () (None :: (string, nat) Superset option)
      :: unit schema_error + (string, nat, unit, nat, nat) dirEntry)" by simp
  from t3 f have 3: "\<not> isl (NewDirectoryEntry () (Some file_Superset)
      :: unit schema_error + (string, nat, unit, nat, nat) dirEntry)" by simp
  from 1 2 3 show ?thesis by (intro conjI)
qed

lemma NewDirectoryEntry_inv:
  "NewDirectoryEntry fetcher' sp = Inr de \<Longrightarrow> dirEntry_inv de"
  by (auto simp: NewDirectoryEntry_def dirEntry_inv_def split: option.splits if_splits)

lemma File_inv: "dirEntry_inv de \<Longrightarrow> dirEntry_inv (snd (File nfr de))"
  by (auto simp: File_def dirEntry_inv_def split: option.splits sum.splits)

lemma Directory_inv: "dirEntry_inv de \<Longrightarrow> dirEntry_inv (snd (Directory ndr de))"
  by (auto simp: Directory_def dirEntry_inv_def split: option.splits sum.splits)

lemma Symlink_inv: "dirEntry_inv de \<Longrightarrow> dirEntry_inv (snd (Symlink de))"
  by (simp add: Symlink_def)

lemma after_calls_inv: "dirEntry_inv de \<Longrightarrow> dirEntry_inv (after_calls cs de)"
proof (induction cs arbitrary: de)
  case Nil
  then show ?case by simp
next
  case (Cons c cs)
  show ?case
  proof (cases c)
    case (CallFile nfr)
    with Cons.IH [OF File_inv [OF Cons.prems]] show ?thesis by simp
  next
    case (CallDirectory ndr)
    with Cons.IH [OF Directory_inv [OF Cons.prems]] show ?thesis by simp
  next
    case CallSymlink
    with Cons.IH [OF Symlink_inv [OF Cons.prems]] show ?thesis by simp
  qed
qed

lemma File_not_file:
  assumes "dirEntry_inv de" and "CamliType de \<noteq> ''file''"
  shows "File nfr de = (Inl (ErrTypeMismatch (CamliType de) ''file''), de)"
proof -
  from assms have "fr de = None" by (auto simp: dirEntry_inv_def CamliType_def)
  with assms(2) show ?thesis by (simp add: File_def CamliType_def)
qed

lemma File_success:
  assumes "dirEntry_inv de" and "File nfr de = (Inr r, de')"
  shows "CamliType de = ''file'' \<and> fr de' = Some r \<and> ss de' = ss de \<and> dr de' = dr de"
  using assms
  by (auto simp: File_def dirEntry_inv_def CamliType_def
      split: option.splits sum.splits if_splits)

lemma File_cached: "fr de = Some r \<Longrightarrow> File nfr de = (Inr r, de)"
  by (simp add: File_def)

lemma Directory_on_file:
  assumes "dirEntry_inv de" and "CamliType de = ''file''"
  shows "Directory ndr de = (Inl (ErrTypeMismatch ''file'' ''directory''), de)"
proof -
  from assms have "dr de = None" by (auto simp: dirEntry_inv_def CamliType_def)
  with assms(2) show ?thesis by (simp add: Directory_def CamliType_def)
qed

lemma after_calls_cached_file:
  assumes "dirEntry_inv de" and "CamliType de = ''file''" and "fr de = Some r"
  shows "after_calls cs de = de"
proof (induction cs)
  case Nil
  show ?case by simp
next
  case (Cons c cs)
  show ?case
  proof (cases c)
    case (CallFile nfr)
    with Cons.IH show ?thesis by (simp add: File_cached [OF assms(3)])
  next
    case (CallDirectory ndr)
    with Cons.IH show ?thesis by (simp add: Directory_on_file [OF assms(1,2)])
  next
    case CallSymlink
    with Cons.IH show ?thesis by (simp add: Symlink_def)
  qed
qed

text \<open>
  Claim C7. Let \<open>de\<close> be an entry returned by NewDirectoryEntry, after any calls of its
  methods. If its CamliType is not \<^verbatim>\<open>file\<close>, then \<open>File\<close> fails with the type mismatch error
  and leaves the entry, cached readers included, as it was. If a call of \<open>File\<close> succeeds with
  a reader \<open>r\<close>, the entry is of type \<^verbatim>\<open>file\<close>, \<open>r\<close> is cached in it, and every later call of
  \<open>File\<close>, whatever happens in between and whatever NewFileReader would answer, returns
  \<open>r\<close> and leaves the entry unchanged.
\<close>

theorem File_type_check_and_cache:
  assumes "NewDirectoryEntry fetcher' sp = Inr de0" and "de = after_calls cs de0"
  shows "(CamliType de \<noteq> ''file'' \<longrightarrow>
            File nfr de = (Inl (ErrTypeMismatch (CamliType de) ''file''), de))
       \<and> (\<forall>r de'. File nfr de = (Inr r, de') \<longrightarrow>
            CamliType de = ''file'' \<and> fr de' = Some r
          \<and> (\<forall>later nfr'. File nfr' (after_calls later de') = (Inr r, de')))"
proof (intro conjI allI impI)
  have inv: "dirEntry_inv de"
    unfolding assms(2) by (rule after_calls_inv [OF NewDirectoryEntry_inv [OF assms(1)]])
  {
    assume "CamliType de \<noteq> ''file''"
    with inv show "File nfr de = (Inl (ErrTypeMismatch (CamliType de) ''file''), de)"
      by (rule File_not_file)
  }
  fix r de' assume ok: "File nfr de = (Inr r, de')"
  from File_success [OF inv ok] have t: "CamliType de = ''file''" and c: "fr de' = Some r"
    and s: "ss de' = ss de" by simp_all
  show "CamliType de = ''file''" by (rule t)
  show "fr de' = Some r" by (rule c)
  from File_inv [OF inv, of nfr] ok have inv': "dirEntry_inv de'" by simp
  from t s have t': "CamliType de' = ''file''" by (simp add: CamliType_def)
  show "File nfr' (after_calls later de') = (Inr r, de')" for later nfr'
    unfolding after_calls_cached_file [OF inv' t' c] by (rule File_cached [OF c])
qed

text \<open>
  On a fresh directory entry \<open>File\<close> fails and changes nothing; on a fresh file entry it
  caches reader 7, and a later call returns 7 although NewFileReader would now answer 8.
\<close>

theorem File_type_check_and_cache_witness:
  "File reader_7 directory_entry
     = (Inl (ErrTypeMismatch ''directory'' ''file'' :: unit schema_error), directory_entry)
   \<and> File reader_7 file_entry
     = (Inr 7 :: unit schema_error + nat, file_entry\<lparr>fr := Some 7\<rparr>)
   \<and> File reader_8 (file_entry\<lparr>fr := Some 7\<rparr>)
     = (Inr 7 :: unit schema_error + nat, file_entry\<lparr>fr := Some 7\<rparr>)"
proof -
  have n1: "(NewDirectoryEntry () (Some directory_Superset) :: unit schema_error + _)
              = Inr directory_entry"
    by (simp add: NewDirectoryEntry_def directory_Superset_def directory_entry_def)
  have n2: "(NewDirectoryEntry () (Some file_Superset) :: unit schema_error + _)
              = Inr file_entry"
    by (simp add: NewDirectoryEntry_def file_Superset_def file_entry_def)
  have c1: "directory_entry = after_calls [] directory_entry"
    and c2: "file_entry = after_calls [] file_entry" by simp_all
  have t1: "CamliType directory_entry = ''directory''"
    by (simp add: CamliType_def directory_entry_def directory_Superset_def)
  have "CamliType directory_entry \<noteq> ''file''" unfolding t1 by simp
  with File_type_check_and_cache [OF n1 c1, of reader_7]
  have 1: "File reader_7 directory_entry
     = (Inl (ErrTypeMismatch ''directory'' ''file'' :: unit schema_error), directory_entry)"
    unfolding t1 by blast
  have 2: "File reader_7 file_entry
     = (Inr 7 :: unit schema_error + nat, file_entry\<lparr>fr := Some 7\<rparr>)"
    by (simp add: File_def file_entry_def file_Superset_def reader_7_def)
  with File_type_check_and_cache [OF n2 c2, of reader_7]
  have "\<forall>later nfr'. File nfr' (after_calls later (file_entry\<lparr>fr := Some 7\<rparr>))
          = (Inr 7 :: unit schema_error + nat, file_entry\<lparr>fr := Some 7\<rparr>)"
    by blast
  then have "File reader_8 (after_calls [] (file_entry\<lparr>fr := Some 7\<rparr>))
          = (Inr 7 :: unit schema_error + nat, file_entry\<lparr>fr := Some 7\<rparr>)"
    by blast
  then have 3: "File reader_8 (file_entry\<lparr>fr := Some 7\<rparr>)
          = (Inr 7 :: unit schema_error + nat, file_entry\<lparr>fr := Some 7\<rparr>)"
    by simp
  from 1 2 3 show ?thesis by (intro conjI)
qed

section \<open>Attribute claims\<close>

text \<open>
  Claim C9. For every permanode and attribute name, the map NewDelAttributeClaim builds has
  the claim type \<^verbatim>\<open>del-attribute\<close> and the given attribute, and has no \<^verbatim>\<open>value\<close> key: its keys
  are those of a claim and \<^verbatim>\<open>attribute\<close>.
\<close>

theorem NewDelAttributeClaim_no_value:
  "NewDelAttributeClaim bs now permaNode attr ''claimType'' = Some (GString ''del-attribute'')
   \<and> NewDelAttributeClaim bs now permaNode attr ''attribute'' = Some (GString attr)
   \<and> NewDelAttributeClaim bs now permaNode attr ''value'' = None
   \<and> ''value'' \<notin> dom (NewDelAttributeClaim bs now permaNode attr)
   \<and> dom (NewDelAttributeClaim bs now permaNode attr)
       = {''camliVersion'', ''camliType'', ''permaNode'', ''claimType'', ''claimDate'',
          ''attribute''}"
  by (auto simp: NewDelAttributeClaim_def newAttrChangeClaim_def NewClaim_def newCamliMap_def
      Let_def split: if_splits)

end
